theory Spec2Isabelle
  imports Main
begin

section \<open>The puzzle session engine of SMChess\<close>

text \<open>
  A shallow embedding of \<^verbatim>\<open>src/state_manager.py\<close> (the deduplicating state store) and
  \<^verbatim>\<open>src/chess_logic.py\<close> (the move engine). Mutation is explicit state passing; every
  exception the Python can raise is a value of \<open>py_error\<close>. The chess library
  (python-chess) is not part of the repository: the engine is parameterised by a record
  of the library calls it makes.
\<close>

datatype py_error =
  ValueError | InvalidMoveError | AssertionError | IndexError | AttributeError | UnboundLocalError

subsection \<open>state_manager.py\<close>

text \<open>\<^verbatim>\<open>PuzzleState\<close>: a frozen dataclass. \<^verbatim>\<open>moves_uci\<close> is a tuple of strings.\<close>

record PuzzleState =
  ps_puzzle_id :: string
  ps_moves_uci :: "string list"
  ps_message_id :: "int option"

text \<open>\<^verbatim>\<open>PuzzleState.__eq__\<close> (and, consistently, \<^verbatim>\<open>__hash__\<close>): the message id is ignored.\<close>

definition PuzzleState_eq :: "PuzzleState \<Rightarrow> PuzzleState \<Rightarrow> bool" where
  "PuzzleState_eq a b = (ps_puzzle_id a = ps_puzzle_id b \<and> ps_moves_uci a = ps_moves_uci b)"

text \<open>
  \<^verbatim>\<open>StateManager\<close>. The Python set \<^verbatim>\<open>states\<close> compares its elements with
  \<^verbatim>\<open>__eq__\<close>; it is the list of its elements, in insertion order, and \<open>set_add\<close> is
  \<^verbatim>\<open>set.add\<close>: an element equal to a present one is not inserted and the present one stays.
\<close>

record StateManager =
  states :: "PuzzleState list"
  current_state :: "PuzzleState option"

definition set_contains :: "PuzzleState list \<Rightarrow> PuzzleState \<Rightarrow> bool" where
  "set_contains xs x = list_ex (\<lambda>y. PuzzleState_eq y x) xs"

definition set_add :: "PuzzleState list \<Rightarrow> PuzzleState \<Rightarrow> PuzzleState list" where
  "set_add xs x = (if set_contains xs x then xs else xs @ [x])"

definition StateManager_init :: StateManager where
  "StateManager_init = \<lparr>states = [], current_state = None\<rparr>"

definition create_state ::
  "StateManager \<Rightarrow> string \<Rightarrow> string list \<Rightarrow> int option \<Rightarrow> PuzzleState \<times> StateManager" where
  "create_state sm pid moves mid =
     (let state = \<lparr>ps_puzzle_id = pid, ps_moves_uci = moves, ps_message_id = mid\<rparr>
      in (state, sm\<lparr>states := set_add (states sm) state\<rparr>))"

definition set_current_state :: "StateManager \<Rightarrow> PuzzleState \<Rightarrow> StateManager" where
  "set_current_state sm state = sm\<lparr>current_state := Some state\<rparr>"

definition get_current_state :: "StateManager \<Rightarrow> PuzzleState option" where
  "get_current_state sm = current_state sm"

definition state_exists :: "StateManager \<Rightarrow> string \<Rightarrow> string list \<Rightarrow> bool" where
  "state_exists sm pid moves =
     set_contains (states sm) \<lparr>ps_puzzle_id = pid, ps_moves_uci = moves, ps_message_id = None\<rparr>"

definition get_state_count :: "StateManager \<Rightarrow> nat" where
  "get_state_count sm = length (states sm)"

subsection \<open>The chess library, as the engine uses it\<close>

text \<open>
  The calls \<^verbatim>\<open>chess_logic.py\<close> makes on python-chess, over a type \<open>'p\<close> of positions and
  a type \<open>'m\<close> of moves (\<^verbatim>\<open>chess.Move\<close>). A call that raises one of the exceptions the
  engine catches, or lets through, returns \<open>None\<close>.
\<close>

record ('p, 'm) rules =
  from_fen :: "string \<Rightarrow> 'p option"          \<comment> \<open>\<^verbatim>\<open>chess.Board(fen)\<close>; \<open>None\<close>: \<^verbatim>\<open>ValueError\<close>\<close>
  parse_san :: "'p \<Rightarrow> string \<Rightarrow> 'm option"    \<comment> \<open>\<^verbatim>\<open>board.parse_san(s)\<close>; \<open>None\<close>: it raises\<close>
  from_uci :: "string \<Rightarrow> 'm option"          \<comment> \<open>\<^verbatim>\<open>chess.Move.from_uci(s)\<close>; \<open>None\<close>: it raises\<close>
  move_bool :: "'m \<Rightarrow> bool"                  \<comment> \<open>\<^verbatim>\<open>Move.__bool__\<close>: false for the null move\<close>
  is_legal :: "'p \<Rightarrow> 'm \<Rightarrow> bool"             \<comment> \<open>\<^verbatim>\<open>move in board.legal_moves\<close>\<close>
  uci :: "'m \<Rightarrow> string"                      \<comment> \<open>\<^verbatim>\<open>move.uci()\<close>\<close>
  san :: "'p \<Rightarrow> 'm \<Rightarrow> string"                \<comment> \<open>\<^verbatim>\<open>board.san(move)\<close>\<close>
  push_ok :: "'p \<Rightarrow> 'm \<Rightarrow> bool"              \<comment> \<open>the assertion inside \<^verbatim>\<open>board.push(move)\<close> holds\<close>
  apply_move :: "'p \<Rightarrow> 'm \<Rightarrow> 'p"             \<comment> \<open>the position after \<^verbatim>\<open>board.push(move)\<close>\<close>
  is_checkmate :: "'p \<Rightarrow> bool"
  is_stalemate :: "'p \<Rightarrow> bool"

text \<open>
  A \<^verbatim>\<open>chess.Board\<close>: the current position and the stack \<^verbatim>\<open>push\<close> builds, newest
  entry first, each entry holding the position before the move and the move.
  \<^verbatim>\<open>board.move_stack\<close> is the list of the moves of that stack. \<^verbatim>\<open>pop\<close> restores the
  position before the last move.

  \<^verbatim>\<open>push\<close> does not check legality, but it asserts that the move is at least
  movable: a move that is neither the null move nor a drop and has no piece on its
  from-square raises \<^verbatim>\<open>AssertionError\<close> (\<open>push_ok\<close> is that assertion). \<open>pushed\<close> is
  the board a push leaves when the assertion holds.
\<close>

record ('p, 'm) Board =
  position :: 'p
  stack :: "('p \<times> 'm) list"

definition Board_init :: "'p \<Rightarrow> ('p, 'm) Board" where
  "Board_init p = \<lparr>position = p, stack = []\<rparr>"

definition pushed :: "('p, 'm) rules \<Rightarrow> ('p, 'm) Board \<Rightarrow> 'm \<Rightarrow> ('p, 'm) Board" where
  "pushed R b m = \<lparr>position = apply_move R (position b) m, stack = (position b, m) # stack b\<rparr>"

definition push ::
  "('p, 'm) rules \<Rightarrow> ('p, 'm) Board \<Rightarrow> 'm \<Rightarrow> py_error + ('p, 'm) Board" where
  "push R b m = (if push_ok R (position b) m then Inr (pushed R b m) else Inl AssertionError)"

definition pop :: "('p, 'm) Board \<Rightarrow> ('p, 'm) Board" where
  "pop b = (case stack b of [] \<Rightarrow> b | (p, m) # rest \<Rightarrow> \<lparr>position = p, stack = rest\<rparr>)"

definition move_stack :: "('p, 'm) Board \<Rightarrow> 'm list" where
  "move_stack b = rev (map snd (stack b))"

subsection \<open>chess_logic.py\<close>

datatype MoveResult = SUCCESS | INVALID_MOVE | PUZZLE_SOLVED | WRONG_MOVE

record ('p, 'm) GameState =
  board :: "('p, 'm) Board"
  moves_uci :: "string list"
  current_move_index :: nat
  is_player_turn :: bool
  puzzle_solved :: bool

record ('p, 'm) ChessLogic =
  game_state :: "('p, 'm) GameState option"
  solution_moves :: "string list"
  state_manager :: "StateManager option"
  puzzle_id :: "string option"

definition ChessLogic_init :: "StateManager option \<Rightarrow> ('p, 'm) ChessLogic" where
  "ChessLogic_init sm =
     \<lparr>game_state = None, solution_moves = [], state_manager = sm, puzzle_id = None\<rparr>"

text \<open>\<^verbatim>\<open>initialize_puzzle\<close>: \<^verbatim>\<open>chess.Board(fen)\<close> raises before anything is assigned.\<close>

definition initialize_puzzle ::
  "('p, 'm) rules \<Rightarrow> ('p, 'm) ChessLogic \<Rightarrow> string \<Rightarrow> string \<Rightarrow> string list
     \<Rightarrow> py_error + ('p, 'm) ChessLogic" where
  "initialize_puzzle R e pid fen sol =
     (case from_fen R fen of
        None \<Rightarrow> Inl ValueError
      | Some p \<Rightarrow>
          Inr (e\<lparr>solution_moves := sol, puzzle_id := Some pid,
                 game_state := Some \<lparr>board = Board_init p, moves_uci = [],
                                     current_move_index = 0, is_player_turn = True,
                                     puzzle_solved = False\<rparr>\<rparr>))"

text \<open>
  \<^verbatim>\<open>_replay_moves_on_board\<close>: each stored string goes through \<^verbatim>\<open>Move.from_uci\<close>, which
  raises on a malformed string, and is pushed as it is, with no legality test; the push
  raises when its assertion fails.
\<close>

fun replay_loop ::
  "('p, 'm) rules \<Rightarrow> ('p, 'm) Board \<Rightarrow> string list \<Rightarrow> py_error + ('p, 'm) Board" where
  "replay_loop R b [] = Inr b"
| "replay_loop R b (move_uci # rest) =
     (case from_uci R move_uci of
        None \<Rightarrow> Inl InvalidMoveError
      | Some m \<Rightarrow>
          (case push R b m of
             Inl err \<Rightarrow> Inl err
           | Inr b' \<Rightarrow> replay_loop R b' rest))"

definition replay_moves_on_board ::
  "('p, 'm) rules \<Rightarrow> string \<Rightarrow> string list \<Rightarrow> py_error + ('p, 'm) Board" where
  "replay_moves_on_board R initial_fen moves =
     (case from_fen R initial_fen of
        None \<Rightarrow> Inl ValueError
      | Some p \<Rightarrow> replay_loop R (Board_init p) moves)"

definition load_from_state ::
  "('p, 'm) rules \<Rightarrow> ('p, 'm) ChessLogic \<Rightarrow> PuzzleState \<Rightarrow> string \<Rightarrow> string list
     \<Rightarrow> py_error + ('p, 'm) ChessLogic" where
  "load_from_state R e puzzle_state initial_fen sol =
     (case replay_moves_on_board R initial_fen (ps_moves_uci puzzle_state) of
        Inl err \<Rightarrow> Inl err
      | Inr b \<Rightarrow>
          Inr (e\<lparr>puzzle_id := Some (ps_puzzle_id puzzle_state), solution_moves := sol,
                 game_state := Some \<lparr>board = b, moves_uci = ps_moves_uci puzzle_state,
                                     current_move_index = length (ps_moves_uci puzzle_state),
                                     is_player_turn = (length (ps_moves_uci puzzle_state) mod 2 = 0),
                                     puzzle_solved = False\<rparr>\<rparr>))"

text \<open>
  The first part of \<^verbatim>\<open>play_move\<close>: SAN first, then UCI with the legality test; a null
  move is falsy and counts as no move (\<^verbatim>\<open>if not move\<close>).
\<close>

definition resolve_move :: "('p, 'm) rules \<Rightarrow> 'p \<Rightarrow> string \<Rightarrow> 'm option" where
  "resolve_move R p move_str =
     (let move = (case parse_san R p move_str of
                    Some m \<Rightarrow> Some m
                  | None \<Rightarrow>
                      (case from_uci R move_str of
                         None \<Rightarrow> None
                       | Some m \<Rightarrow> if is_legal R p m then Some m else None))
      in case move of
           None \<Rightarrow> None
         | Some m \<Rightarrow> if move_bool R m then Some m else None)"

text \<open>
  The notification of the store after a move: skipped when there is no store or the
  puzzle id is \<^verbatim>\<open>None\<close> or the empty string (both falsy).
\<close>

definition notify_store ::
  "StateManager option \<Rightarrow> string option \<Rightarrow> string list \<Rightarrow> StateManager option" where
  "notify_store smo pido moves =
     (case smo of
        None \<Rightarrow> None
      | Some sm \<Rightarrow>
          (case pido of
             None \<Rightarrow> Some sm
           | Some pid \<Rightarrow>
               if pid = [] then Some sm
               else (let (new_state, sm') = create_state sm pid moves None
                     in Some (set_current_state sm' new_state))))"

text \<open>
  \<^verbatim>\<open>play_move\<close>. \<^verbatim>\<open>board.push\<close> is reached only with a resolved move, one that
  \<^verbatim>\<open>parse_san\<close> returned or that is in \<^verbatim>\<open>board.legal_moves\<close>; python-chess generates
  these from the pieces on the board, so the assertion of \<^verbatim>\<open>push\<close> holds and the board
  after it is \<open>pushed\<close>.
\<close>

definition play_move ::
  "('p, 'm) rules \<Rightarrow> ('p, 'm) ChessLogic \<Rightarrow> string
     \<Rightarrow> (MoveResult \<times> string) \<times> ('p, 'm) ChessLogic" where
  "play_move R e move_str =
     (case game_state e of
        None \<Rightarrow> ((INVALID_MOVE, ''No puzzle initialized''), e)
      | Some g \<Rightarrow>
          (case resolve_move R (position (board g)) move_str of
             None \<Rightarrow> ((INVALID_MOVE, [CHR 0x27] @ move_str @ [CHR 0x27] @ '' is not a valid move''), e)
           | Some move \<Rightarrow>
               if is_player_turn g \<and> current_move_index g < length (solution_moves e)
                  \<and> uci R move \<noteq> solution_moves e ! current_move_index g
               then ((WRONG_MOVE, ''Puzzle expects a different move''), e)
               else
                 (let san_move = san R (position (board g)) move;
                      b' = pushed R (board g) move;
                      idx' = (if is_player_turn g then current_move_index g + 1
                              else current_move_index g);
                      g' = g\<lparr>board := b', moves_uci := moves_uci g @ [uci R move],
                              current_move_index := idx',
                              is_player_turn := \<not> is_player_turn g\<rparr>;
                      sm' = notify_store (state_manager e) (puzzle_id e) (moves_uci g')
                  in if idx' \<ge> length (solution_moves e) \<or> is_checkmate R (position b')
                        \<or> is_stalemate R (position b')
                     then ((PUZZLE_SOLVED, ''Puzzle solved with '' @ san_move @ ''!''),
                           e\<lparr>game_state := Some (g'\<lparr>puzzle_solved := True\<rparr>),
                             state_manager := sm'\<rparr>)
                     else ((SUCCESS, san_move),
                           e\<lparr>game_state := Some g', state_manager := sm'\<rparr>))))"

text \<open>
  \<^verbatim>\<open>play_move_tree\<close>. \<open>result\<close> is \<open>None\<close> while the Python variable is unbound; the
  \<^verbatim>\<open>return\<close> after the loop then raises. The recursion is the \<^verbatim>\<open>for\<close> loop, a
  \<^verbatim>\<open>break\<close> is a branch that returns without the recursive call.
\<close>

fun play_move_tree_loop ::
  "('p, 'm) rules \<Rightarrow> ('p, 'm) ChessLogic \<Rightarrow> MoveResult option \<Rightarrow> string list \<Rightarrow> string list
     \<Rightarrow> (py_error + MoveResult \<times> string list) \<times> ('p, 'm) ChessLogic" where
  "play_move_tree_loop R e result results [] =
     (case result of
        None \<Rightarrow> (Inl UnboundLocalError, e)
      | Some r \<Rightarrow> (Inr (r, results), e))"
| "play_move_tree_loop R e result results (move_str # moves) =
     (let ((r, message), e1) = play_move R e move_str;
          results1 = results @ [message]
      in if r = INVALID_MOVE \<or> r = PUZZLE_SOLVED then (Inr (r, results1), e1)
         else if r = SUCCESS then
           (case game_state e1 of
              None \<Rightarrow> (Inl AttributeError, e1)
            | Some g \<Rightarrow>
                if \<not> is_player_turn g \<and> current_move_index g < length (solution_moves e1) then
                  (let opponent_move = solution_moves e1 ! current_move_index g;
                       ((opp_result, opp_message), e2) = play_move R e1 opponent_move;
                       results2 = results1 @ [''Opponent: '' @ opp_message]
                   in if opp_result = PUZZLE_SOLVED then (Inr (opp_result, results2), e2)
                      else play_move_tree_loop R e2 (Some r) results2 moves)
                else play_move_tree_loop R e1 (Some r) results1 moves)
         else play_move_tree_loop R e1 (Some r) results1 moves)"

definition play_move_tree ::
  "('p, 'm) rules \<Rightarrow> ('p, 'm) ChessLogic \<Rightarrow> string list
     \<Rightarrow> (py_error + MoveResult \<times> string list) \<times> ('p, 'm) ChessLogic" where
  "play_move_tree R e moves = play_move_tree_loop R e None [] moves"

text \<open>
  \<^verbatim>\<open>rollback_moves\<close>. The \<^verbatim>\<open>while\<close> loop pops the board, then \<^verbatim>\<open>moves_uci\<close>;
  \<^verbatim>\<open>list.pop\<close> raises \<^verbatim>\<open>IndexError\<close> on an empty list, after the board was popped.
\<close>

function pop_loop ::
  "int \<Rightarrow> ('p, 'm) GameState \<Rightarrow> nat \<Rightarrow> py_error option \<times> ('p, 'm) GameState \<times> nat" where
  "pop_loop count g moves_popped =
     (if int moves_popped < count \<and> move_stack (board g) \<noteq> [] then
        (let g1 = g\<lparr>board := pop (board g)\<rparr>
         in if moves_uci g1 = [] then (Some IndexError, g1, moves_popped)
            else pop_loop count (g1\<lparr>moves_uci := butlast (moves_uci g1)\<rparr>) (moves_popped + 1))
      else (None, g, moves_popped))"
  by pat_completeness auto
termination
  by (relation "measure (\<lambda>(count, g, moves_popped). nat (count - int moves_popped))") auto

declare pop_loop.simps [simp del]

definition rollback_moves ::
  "('p, 'm) ChessLogic \<Rightarrow> int \<Rightarrow> (py_error + bool) \<times> ('p, 'm) ChessLogic" where
  "rollback_moves e count =
     (case game_state e of
        None \<Rightarrow> (Inr False, e)
      | Some g \<Rightarrow>
          if count \<le> 0 then (Inr False, e)
          else
            (case pop_loop count g 0 of
               (Some err, g1, moves_popped) \<Rightarrow> (Inl err, e\<lparr>game_state := Some g1\<rparr>)
             | (None, g1, moves_popped) \<Rightarrow>
                 (Inr (moves_popped > 0),
                  e\<lparr>game_state := Some (g1\<lparr>
                       current_move_index :=
                         nat (max 0 (int (current_move_index g1) - int moves_popped)),
                       is_player_turn := (length (moves_uci g1) mod 2 = 0),
                       puzzle_solved := False\<rparr>)\<rparr>)))"

subsection \<open>A fragment of the chess library\<close>

text \<open>
  The examples below run the engine on real positions. \<open>book_rules\<close> gives the answers
  of python-chess on the positions and moves these examples visit: a position is a
  starting FEN together with the moves pushed since, a move is its UCI string, and
  \<open>book\<close> lists, per position, legal moves with their SAN. Three starting positions
  are known: the initial position, the position after 1. e4 g6 and the position after
  1. f3 e5.
\<close>

type_synonym book_position = "string \<times> string list"

definition start_fen :: string where
  "start_fen = ''rnbqkbnr/pppppppp/8/8/8/8/PPPPPPPP/RNBQKBNR w KQkq - 0 1''"

definition queen_fen :: string where
  "queen_fen = ''rnbqkbnr/pppppp1p/6p1/8/4P3/8/PPPP1PPP/RNBQKBNR w KQkq - 0 2''"

definition fools_fen :: string where
  "fools_fen = ''rnbqkbnr/pppp1ppp/8/4p3/8/5P2/PPPPP1PP/RNBQKBNR w KQkq - 0 2''"

definition book :: "(book_position \<times> string \<times> string) list" where
  "book =
     [((start_fen, []), ''e2e4'', ''e4''),
      ((start_fen, []), ''d2d4'', ''d4''),
      ((start_fen, [''e2e4'']), ''e7e5'', ''e5''),
      ((start_fen, [''e2e4'', ''e7e5'']), ''g1f3'', ''Nf3''),
      ((queen_fen, []), ''d1h5'', ''Qh5''),
      ((queen_fen, [''d1h5'']), ''g6h5'', ''gxh5''),
      ((fools_fen, []), ''g2g4'', ''g4''),
      ((fools_fen, []), ''e2e4'', ''e4''),
      ((fools_fen, [''g2g4'']), ''d8h4'', ''Qh4#'')]"

definition book_moves :: "book_position \<Rightarrow> (string \<times> string) list" where
  "book_moves p = map snd (filter (\<lambda>entry. fst entry = p) book)"

definition book_from_fen :: "string \<Rightarrow> book_position option" where
  "book_from_fen fen =
     (if fen = start_fen \<or> fen = queen_fen \<or> fen = fools_fen then Some (fen, []) else None)"

definition is_square :: "char \<Rightarrow> char \<Rightarrow> bool" where
  "is_square f r = (f \<in> set ''abcdefgh'' \<and> r \<in> set ''12345678'')"

text \<open>\<^verbatim>\<open>Move.from_uci\<close> without drops: the null move, or two distinct squares and an
  optional promotion piece.\<close>

definition book_from_uci :: "string \<Rightarrow> string option" where
  "book_from_uci s =
     (if s = ''0000'' then Some s
      else case s of
             [a, b, c, d] \<Rightarrow>
               if is_square a b \<and> is_square c d \<and> (a, b) \<noteq> (c, d) then Some s else None
           | [a, b, c, d, x] \<Rightarrow>
               if is_square a b \<and> is_square c d \<and> (a, b) \<noteq> (c, d) \<and> x \<in> set ''pnbrqk''
               then Some s else None
           | _ \<Rightarrow> None)"

definition book_is_legal :: "book_position \<Rightarrow> string \<Rightarrow> bool" where
  "book_is_legal p m = (m \<in> set (map fst (book_moves p)))"

text \<open>\<^verbatim>\<open>parse_san\<close>: the SAN of a legal move, or a fully specified legal move.\<close>

definition book_parse_san :: "book_position \<Rightarrow> string \<Rightarrow> string option" where
  "book_parse_san p s =
     (case map_of (map (\<lambda>entry. (snd entry, fst entry)) (book_moves p)) s of
        Some m \<Rightarrow> Some m
      | None \<Rightarrow> if book_is_legal p s then Some s else None)"

definition book_san :: "book_position \<Rightarrow> string \<Rightarrow> string" where
  "book_san p m =
     (case map_of (book_moves p) m of
        Some name \<Rightarrow> name
      | None \<Rightarrow> m)"

text \<open>
  The squares that hold a piece: those of the placement field of the FEN, files and
  ranks counted from 0 and from 1, then for every move pushed its from-square left and
  its to-square taken (castling and en passant, which move or take a second piece, are
  not among the examples).
\<close>

definition square_of :: "char \<Rightarrow> char \<Rightarrow> nat \<times> nat" where
  "square_of f r = (of_char f - 97, of_char r - 48)"

fun placement :: "string \<Rightarrow> nat \<Rightarrow> nat \<Rightarrow> (nat \<times> nat) list" where
  "placement [] file rank = []"
| "placement (c # cs) file rank =
     (if c = CHR '' '' then []
      else if c = CHR ''/'' then placement cs 0 (rank - 1)
      else if c \<in> set ''12345678'' then placement cs (file + (of_char c - 48)) rank
      else (file, rank) # placement cs (file + 1) rank)"

fun occupied_after :: "(nat \<times> nat) list \<Rightarrow> string list \<Rightarrow> (nat \<times> nat) list" where
  "occupied_after occ [] = occ"
| "occupied_after occ (m # ms) =
     occupied_after
       (case m of
          a # b # c # d # x \<Rightarrow>
            if m = ''0000'' then occ else square_of c d # removeAll (square_of a b) occ
        | _ \<Rightarrow> occ) ms"

text \<open>The assertion of \<^verbatim>\<open>push\<close>: the null move, or a piece on the from-square.\<close>

definition book_push_ok :: "book_position \<Rightarrow> string \<Rightarrow> bool" where
  "book_push_ok p m =
     (case m of
        a # b # x \<Rightarrow>
          m = ''0000'' \<or> square_of a b \<in> set (occupied_after (placement (fst p) 0 8) (snd p))
      | _ \<Rightarrow> True)"

definition book_rules :: "(book_position, string) rules" where
  "book_rules =
     \<lparr>from_fen = book_from_fen,
      parse_san = book_parse_san,
      from_uci = book_from_uci,
      move_bool = (\<lambda>m. m \<noteq> ''0000''),
      is_legal = book_is_legal,
      uci = (\<lambda>m. m),
      san = book_san,
      push_ok = book_push_ok,
      apply_move = (\<lambda>p m. (fst p, snd p @ [m])),
      is_checkmate = (\<lambda>p. p = (fools_fen, [''g2g4'', ''d8h4''])),
      is_stalemate = (\<lambda>p. False)\<rparr>"

subsection \<open>What the engine relies on in the chess library\<close>

text \<open>
  python-chess documents that \<^verbatim>\<open>parse_san\<close> returns a legal move or, for the null
  move notation, the null move, which is falsy and never legal.
\<close>

definition rules_sound :: "('p, 'm) rules \<Rightarrow> bool" where
  "rules_sound R =
     ((\<forall>p s m. parse_san R p s = Some m \<and> move_bool R m \<longrightarrow> is_legal R p m)
      \<and> (\<forall>p m. is_legal R p m \<longrightarrow> move_bool R m))"

text \<open>A position that is checkmate or stalemate has no legal move.\<close>

definition game_over_no_moves :: "('p, 'm) rules \<Rightarrow> bool" where
  "game_over_no_moves R =
     (\<forall>p m. is_legal R p m \<longrightarrow> \<not> is_checkmate R p \<and> \<not> is_stalemate R p)"

subsection \<open>The passes of \<^verbatim>\<open>play_move_tree\<close> that do not stop it\<close>



subsection \<open>Sequences of calls\<close>

datatype engine_call = Play string | PlayTree "string list" | Rollback int

fun do_call ::
  "('p, 'm) rules \<Rightarrow> ('p, 'm) ChessLogic \<Rightarrow> engine_call \<Rightarrow> ('p, 'm) ChessLogic" where
  "do_call R e (Play move_str) = snd (play_move R e move_str)"
| "do_call R e (PlayTree moves) = snd (play_move_tree R e moves)"
| "do_call R e (Rollback count) = snd (rollback_moves e count)"

text \<open>
  The invariant of a loaded session: the turn flag follows the parity of the history,
  and the board's move stack is as long as the history.
\<close>

definition session_inv :: "('p, 'm) ChessLogic \<Rightarrow> bool" where
  "session_inv e =
     (case game_state e of
        None \<Rightarrow> False
      | Some g \<Rightarrow> is_player_turn g = (length (moves_uci g) mod 2 = 0)
                 \<and> length (stack (board g)) = length (moves_uci g))"

subsection \<open>Example sessions\<close>

definition fresh_engine :: "(book_position, string) ChessLogic" where
  "fresh_engine = ChessLogic_init (Some StateManager_init)"

text \<open>\<^verbatim>\<open>initialize_puzzle("p1", fen, sol)\<close> on a new engine with an empty store.\<close>

definition puzzle_on :: "string \<Rightarrow> string list \<Rightarrow> (book_position, string) ChessLogic" where
  "puzzle_on fen sol =
     (case initialize_puzzle book_rules fresh_engine ''p1'' fen sol of
        Inr e \<Rightarrow> e
      | Inl err \<Rightarrow> fresh_engine)"

text \<open>After 1. f3 e5: the player's 2. g4 and the reply 2... Qh4 mate, each by \<^verbatim>\<open>play_move\<close>.\<close>

definition fools_mated :: "(book_position, string) ChessLogic" where
  "fools_mated =
     foldl (do_call book_rules) (puzzle_on fools_fen [''g2g4'', ''d8h4''])
       [Play ''g2g4'', Play ''d8h4'']"

text \<open>
  From the initial position with the solution e2e4, g1f3, b1c3: three accepted
  \<^verbatim>\<open>play_move\<close> calls, the player's e2e4, the opponent's e7e5, the player's g1f3.
\<close>

definition three_plies :: "(book_position, string) ChessLogic" where
  "three_plies =
     foldl (do_call book_rules) (puzzle_on start_fen [''e2e4'', ''g1f3'', ''b1c3''])
       [Play ''e2e4'', Play ''e7e5'', Play ''g1f3'']"

section \<open>Properties\<close>

subsection \<open>The state store\<close>

lemma set_contains_add:
  "set_contains (set_add xs x) y = (set_contains xs y \<or> PuzzleState_eq x y)"
  by (auto simp: set_add_def set_contains_def list_ex_iff PuzzleState_eq_def)

lemma set_add_present: "set_contains xs x \<Longrightarrow> set_add xs x = xs"
  by (simp add: set_add_def)

lemma create_state_fst:
  "fst (create_state sm p m r) = \<lparr>ps_puzzle_id = p, ps_moves_uci = m, ps_message_id = r\<rparr>"
  by (simp add: create_state_def Let_def)

lemma create_state_exists: "state_exists (snd (create_state sm p m r)) p m"
  by (simp add: create_state_def Let_def state_exists_def set_contains_add PuzzleState_eq_def)

lemma create_state_again:
  assumes "state_exists sm p m"
  shows "snd (create_state sm p m r) = sm"
proof -
  have "set_contains (states sm) \<lparr>ps_puzzle_id = p, ps_moves_uci = m, ps_message_id = r\<rparr>"
    using assms by (simp add: state_exists_def set_contains_def list_ex_iff PuzzleState_eq_def)
  then show ?thesis
    by (simp add: create_state_def Let_def set_add_present)
qed

lemma create_state_repeat:
  "state_exists sm p m \<Longrightarrow> foldl (\<lambda>s r. snd (create_state s p m r)) sm refs = sm"
  by (induction refs) (simp_all add: create_state_again)

text \<open>
  C6. \<^verbatim>\<open>create_state\<close> is documented to return the existing state when an identical
  one is stored. On a store that holds the state of puzzle \<open>p1\<close> with no moves and
  message id 1, the call with message id 2 leaves the store as it is and returns the
  state it has just built, with message id 2: the value returned is not the stored one.
\<close>

theorem create_state_returns_new_object:
  "create_state \<lparr>states = [\<lparr>ps_puzzle_id = ''p1'', ps_moves_uci = [], ps_message_id = Some 1\<rparr>],
                 current_state = None\<rparr> ''p1'' [] (Some 2)
   = (\<lparr>ps_puzzle_id = ''p1'', ps_moves_uci = [], ps_message_id = Some 2\<rparr>,
      \<lparr>states = [\<lparr>ps_puzzle_id = ''p1'', ps_moves_uci = [], ps_message_id = Some 1\<rparr>],
       current_state = None\<rparr>)"
  by (simp add: create_state_def Let_def set_add_def set_contains_def PuzzleState_eq_def)

text \<open>
  C7. Deduplication: a second \<^verbatim>\<open>create_state\<close> for the same puzzle id and moves
  returns a value equal, under \<^verbatim>\<open>__eq__\<close>, to the value of the first call, whatever
  the two message ids; two calls with the same identity return equal values on any two
  stores; and after the first call any number of further calls for that identity, with
  any message ids, leave the count, and the whole store, as the first call left them.
\<close>

theorem create_state_dedup:
  "PuzzleState_eq (fst (create_state (snd (create_state sm p m ref1)) p m ref2))
                  (fst (create_state sm p m ref1))
   \<and> PuzzleState_eq (fst (create_state sm p m ref1)) (fst (create_state sm' p m ref2))
   \<and> get_state_count (foldl (\<lambda>s r. snd (create_state s p m r)) (snd (create_state sm p m ref1)) refs)
       = get_state_count (snd (create_state sm p m ref1))
   \<and> foldl (\<lambda>s r. snd (create_state s p m r)) (snd (create_state sm p m ref1)) refs
       = snd (create_state sm p m ref1)"
  by (simp add: create_state_fst PuzzleState_eq_def create_state_repeat create_state_exists)

subsection \<open>The fragment of the chess library\<close>

lemma fen_distinct [simp]:
  "start_fen \<noteq> queen_fen" "start_fen \<noteq> fools_fen" "queen_fen \<noteq> fools_fen"
  "queen_fen \<noteq> start_fen" "fools_fen \<noteq> start_fen" "fools_fen \<noteq> queen_fen"
  by (simp_all add: start_fen_def queen_fen_def fools_fen_def)

lemma book_moves_simps [simp]:
  "book_moves (start_fen, []) = [(''e2e4'', ''e4''), (''d2d4'', ''d4'')]"
  "book_moves (start_fen, [''e2e4'']) = [(''e7e5'', ''e5'')]"
  "book_moves (start_fen, [''e2e4'', ''e7e5'']) = [(''g1f3'', ''Nf3'')]"
  "book_moves (start_fen, [''e2e4'', ''e7e5'', ''g1f3'']) = []"
  "book_moves (start_fen, [''e2e5'']) = []"
  "book_moves (queen_fen, []) = [(''d1h5'', ''Qh5'')]"
  "book_moves (queen_fen, [''d1h5'']) = [(''g6h5'', ''gxh5'')]"
  "book_moves (queen_fen, [''d1h5'', ''g6h5'']) = []"
  "book_moves (fools_fen, []) = [(''g2g4'', ''g4''), (''e2e4'', ''e4'')]"
  "book_moves (fools_fen, [''g2g4'']) = [(''d8h4'', ''Qh4#'')]"
  "book_moves (fools_fen, [''g2g4'', ''d8h4'']) = []"
  by (simp_all add: book_moves_def book_def)

lemma book_rules_sel [simp]:
  "from_fen book_rules = book_from_fen"
  "parse_san book_rules = book_parse_san"
  "from_uci book_rules = book_from_uci"
  "move_bool book_rules = (\<lambda>m. m \<noteq> ''0000'')"
  "is_legal book_rules = book_is_legal"
  "uci book_rules = (\<lambda>m. m)"
  "san book_rules = book_san"
  "push_ok book_rules = book_push_ok"
  "apply_move book_rules = (\<lambda>p m. (fst p, snd p @ [m]))"
  "is_checkmate book_rules = (\<lambda>p. p = (fools_fen, [''g2g4'', ''d8h4'']))"
  "is_stalemate book_rules = (\<lambda>p. False)"
  by (simp_all add: book_rules_def)

lemma book_legal_cases:
  "book_is_legal p m \<Longrightarrow> (p, m) \<in> set (map (\<lambda>(p, u, n). (p, u)) book)"
  by (force simp: book_is_legal_def book_moves_def)

lemma book_rules_sound: "rules_sound book_rules"
  unfolding rules_sound_def
proof (intro conjI allI impI)
  fix p s m
  assume "parse_san book_rules p s = Some m \<and> move_bool book_rules m"
  then have "book_parse_san p s = Some m" by simp
  then have "book_is_legal p m"
    by (auto simp: book_parse_san_def book_is_legal_def split: option.splits if_splits
        dest!: map_of_SomeD)
  then show "is_legal book_rules p m" by simp
next
  fix p m
  assume "is_legal book_rules p m"
  then have "book_is_legal p m" by simp
  then have "m \<noteq> ''0000''"
    using book_legal_cases[of p m] by (auto simp: book_def)
  then show "move_bool book_rules m" by simp
qed

lemma book_game_over_no_moves: "game_over_no_moves book_rules"
  unfolding game_over_no_moves_def
proof (intro allI impI)
  fix p m
  assume "is_legal book_rules p m"
  then have "book_is_legal p m" by simp
  then have "p \<noteq> (fools_fen, [''g2g4'', ''d8h4''])"
    by (auto simp: book_is_legal_def)
  then show "\<not> is_checkmate book_rules p \<and> \<not> is_stalemate book_rules p" by simp
qed

lemma puzzle_on_known:
  "fen = start_fen \<or> fen = queen_fen \<or> fen = fools_fen \<Longrightarrow>
   puzzle_on fen sol =
     \<lparr>game_state = Some \<lparr>board = \<lparr>position = (fen, []), stack = []\<rparr>, moves_uci = [],
                          current_move_index = 0, is_player_turn = True, puzzle_solved = False\<rparr>,
      solution_moves = sol, state_manager = Some StateManager_init, puzzle_id = Some ''p1''\<rparr>"
  by (auto simp: puzzle_on_def initialize_puzzle_def book_from_fen_def fresh_engine_def
      ChessLogic_init_def Board_init_def)

lemma fresh_engine_unloaded: "game_state fresh_engine = None"
  by (simp add: fresh_engine_def ChessLogic_init_def)

lemmas engine_eval =
  play_move_def resolve_move_def Let_def pushed_def notify_store_def create_state_def
  set_current_state_def set_add_def set_contains_def PuzzleState_eq_def StateManager_init_def
  book_parse_san_def book_is_legal_def book_from_uci_def book_san_def is_square_def
  puzzle_on_known

lemma ex_SomeD: "\<exists>g. x = Some g \<and> P g \<Longrightarrow> x = Some G \<Longrightarrow> P G"
  by auto

subsection \<open>One move\<close>

lemma resolve_move_None_iff:
  assumes "rules_sound R"
  shows "resolve_move R p s = None \<longleftrightarrow>
     (parse_san R p s = None \<and> from_uci R s = None)
     \<or> (\<exists>m. (parse_san R p s = Some m \<or> parse_san R p s = None \<and> from_uci R s = Some m)
            \<and> \<not> is_legal R p m)"
  using assms unfolding rules_sound_def resolve_move_def Let_def
  by (auto split: option.splits)

lemma resolve_move_legal:
  assumes "rules_sound R"
    and "parse_san R p s = Some m \<or> parse_san R p s = None \<and> from_uci R s = Some m"
    and "is_legal R p m"
  shows "resolve_move R p s = Some m"
  using assms unfolding rules_sound_def resolve_move_def Let_def
  by (auto split: option.splits)

lemma resolve_move_is_legal:
  "rules_sound R \<Longrightarrow> resolve_move R p s = Some m \<Longrightarrow> is_legal R p m"
  unfolding rules_sound_def resolve_move_def Let_def
  by (auto split: option.splits if_splits)

text \<open>
  C8. Error atomicity of \<^verbatim>\<open>play_move\<close>, for a chess library that keeps its contract.
  With no puzzle loaded the call returns \<^verbatim>\<open>INVALID_MOVE\<close> with the message
  \<open>No puzzle initialized\<close> and the engine, its store included, is unchanged. With a puzzle
  loaded, a string that parses in neither notation, or whose move (the SAN reading first,
  else the UCI reading) is not legal in the current position, gives \<^verbatim>\<open>INVALID_MOVE\<close>
  and an unchanged engine; a string whose move is legal but, on the player's turn with the
  cursor short of the end, differs from \<open>solution[cursor]\<close> gives \<^verbatim>\<open>WRONG_MOVE\<close> and an
  unchanged engine.
\<close>

theorem play_move_error_atomicity:
  assumes "rules_sound R"
  shows "(game_state e = None \<longrightarrow>
            play_move R e move_str = ((INVALID_MOVE, ''No puzzle initialized''), e))
   \<and> (\<forall>g. game_state e = Some g \<longrightarrow>
        (parse_san R (position (board g)) move_str = None \<and> from_uci R move_str = None)
        \<or> (\<exists>m. (parse_san R (position (board g)) move_str = Some m
                 \<or> parse_san R (position (board g)) move_str = None \<and> from_uci R move_str = Some m)
                \<and> \<not> is_legal R (position (board g)) m) \<longrightarrow>
        fst (fst (play_move R e move_str)) = INVALID_MOVE \<and> snd (play_move R e move_str) = e)
   \<and> (\<forall>g m. game_state e = Some g \<longrightarrow>
        (parse_san R (position (board g)) move_str = Some m
         \<or> parse_san R (position (board g)) move_str = None \<and> from_uci R move_str = Some m) \<longrightarrow>
        is_legal R (position (board g)) m \<longrightarrow>
        is_player_turn g \<longrightarrow> current_move_index g < length (solution_moves e) \<longrightarrow>
        uci R m \<noteq> solution_moves e ! current_move_index g \<longrightarrow>
        play_move R e move_str = ((WRONG_MOVE, ''Puzzle expects a different move''), e))"
proof (intro conjI allI impI)
  assume "game_state e = None"
  then show "play_move R e move_str = ((INVALID_MOVE, ''No puzzle initialized''), e)"
    by (simp add: play_move_def)
next
  fix g
  assume g: "game_state e = Some g"
    and bad: "(parse_san R (position (board g)) move_str = None \<and> from_uci R move_str = None)
        \<or> (\<exists>m. (parse_san R (position (board g)) move_str = Some m
                 \<or> parse_san R (position (board g)) move_str = None \<and> from_uci R move_str = Some m)
                \<and> \<not> is_legal R (position (board g)) m)"
  have "resolve_move R (position (board g)) move_str = None"
    using bad resolve_move_None_iff[OF assms] by blast
  with g show "fst (fst (play_move R e move_str)) = INVALID_MOVE"
    and "snd (play_move R e move_str) = e"
    by (simp_all add: play_move_def)
next
  fix g m
  assume g: "game_state e = Some g"
    and parsed: "parse_san R (position (board g)) move_str = Some m
         \<or> parse_san R (position (board g)) move_str = None \<and> from_uci R move_str = Some m"
    and legal: "is_legal R (position (board g)) m"
    and turn: "is_player_turn g" "current_move_index g < length (solution_moves e)"
    and off: "uci R m \<noteq> solution_moves e ! current_move_index g"
  have "resolve_move R (position (board g)) move_str = Some m"
    using resolve_move_legal[OF assms parsed legal] .
  with g turn off
  show "play_move R e move_str = ((WRONG_MOVE, ''Puzzle expects a different move''), e)"
    by (simp add: play_move_def)
qed

text \<open>
  Witness for C8, on the initial position with the solution e2e4, e7e5: no puzzle loaded;
  \<open>Ke2\<close>, which parses in neither notation; \<open>e2e5\<close>, well-formed and illegal; and the legal
  \<open>d2d4\<close>, which is not the expected e2e4.
\<close>

theorem play_move_error_atomicity_witness:
  "rules_sound book_rules
   \<and> play_move book_rules fresh_engine ''e2e4''
       = ((INVALID_MOVE, ''No puzzle initialized''), fresh_engine)
   \<and> fst (fst (play_move book_rules (puzzle_on start_fen [''e2e4'', ''e7e5'']) ''Ke2'')) = INVALID_MOVE
   \<and> snd (play_move book_rules (puzzle_on start_fen [''e2e4'', ''e7e5'']) ''Ke2'')
       = puzzle_on start_fen [''e2e4'', ''e7e5'']
   \<and> fst (fst (play_move book_rules (puzzle_on start_fen [''e2e4'', ''e7e5'']) ''e2e5'')) = INVALID_MOVE
   \<and> snd (play_move book_rules (puzzle_on start_fen [''e2e4'', ''e7e5'']) ''e2e5'')
       = puzzle_on start_fen [''e2e4'', ''e7e5'']
   \<and> play_move book_rules (puzzle_on start_fen [''e2e4'', ''e7e5'']) ''d2d4''
       = ((WRONG_MOVE, ''Puzzle expects a different move''), puzzle_on start_fen [''e2e4'', ''e7e5''])"
proof -
  let ?e = "puzzle_on start_fen [''e2e4'', ''e7e5'']"
  let ?g = "\<lparr>board = \<lparr>position = (start_fen, []), stack = []\<rparr>, moves_uci = [],
             current_move_index = 0, is_player_turn = True, puzzle_solved = False\<rparr>
            :: (book_position, string) GameState"
  have g: "game_state ?e = Some ?g" and sol: "solution_moves ?e = [''e2e4'', ''e7e5'']"
    by (simp_all add: puzzle_on_known)
  have neither: "parse_san book_rules (position (board ?g)) ''Ke2'' = None
      \<and> from_uci book_rules ''Ke2'' = None"
    by (simp add: book_parse_san_def book_is_legal_def book_from_uci_def)
  have illegal: "parse_san book_rules (position (board ?g)) ''e2e5'' = None
      \<and> from_uci book_rules ''e2e5'' = Some ''e2e5''
      \<and> \<not> is_legal book_rules (position (board ?g)) ''e2e5''"
    by (simp add: book_parse_san_def book_is_legal_def book_from_uci_def is_square_def)
  have legal: "parse_san book_rules (position (board ?g)) ''d2d4'' = Some ''d2d4''
      \<and> is_legal book_rules (position (board ?g)) ''d2d4''"
    by (simp add: book_parse_san_def book_is_legal_def)
  note T = play_move_error_atomicity[OF book_rules_sound]
  have 1: "play_move book_rules fresh_engine ''e2e4''
       = ((INVALID_MOVE, ''No puzzle initialized''), fresh_engine)"
    using T[of fresh_engine "''e2e4''"] fresh_engine_unloaded by blast
  have 2: "fst (fst (play_move book_rules ?e ''Ke2'')) = INVALID_MOVE
      \<and> snd (play_move book_rules ?e ''Ke2'') = ?e"
    using T[of ?e "''Ke2''"] g neither by blast
  have 3: "fst (fst (play_move book_rules ?e ''e2e5'')) = INVALID_MOVE
      \<and> snd (play_move book_rules ?e ''e2e5'') = ?e"
    using T[of ?e "''e2e5''"] g illegal by blast
  have 4: "play_move book_rules ?e ''d2d4''
      = ((WRONG_MOVE, ''Puzzle expects a different move''), ?e)"
  proof -
    have "is_player_turn ?g" "current_move_index ?g < length (solution_moves ?e)"
      "uci book_rules ''d2d4'' \<noteq> solution_moves ?e ! current_move_index ?g"
      by (simp_all add: sol)
    with T[of ?e "''d2d4''"] g legal show ?thesis by blast
  qed
  from book_rules_sound 1 2 3 4 show ?thesis by blast
qed

subsection \<open>After the puzzle is solved\<close>

lemma play_move_success_loaded:
  "play_move R e s = ((SUCCESS, msg), e1) \<Longrightarrow> game_state e1 \<noteq> None"
  by (auto simp: play_move_def Let_def split: option.splits if_splits)

lemma play_move_solved_state:
  assumes "play_move R e s = ((PUZZLE_SOLVED, msg), e1)"
  shows "\<exists>g1. game_state e1 = Some g1 \<and> puzzle_solved g1
     \<and> (length (solution_moves e1) \<le> current_move_index g1
        \<or> is_checkmate R (position (board g1)) \<or> is_stalemate R (position (board g1)))"
  using assms by (auto simp: play_move_def Let_def split: option.splits if_splits)

lemma play_move_keeps_solved:
  "game_state e = Some g \<Longrightarrow> puzzle_solved g \<Longrightarrow>
   \<exists>g'. game_state (snd (play_move R e s)) = Some g' \<and> puzzle_solved g'"
  by (auto simp: play_move_def Let_def split: option.splits)

lemma solved_by_e4:
  "play_move book_rules (puzzle_on start_fen [''e2e4'']) ''e2e4'' =
     ((PUZZLE_SOLVED, ''Puzzle solved with e4!''),
      \<lparr>game_state = Some
         \<lparr>board = \<lparr>position = (start_fen, [''e2e4'']), stack = [((start_fen, []), ''e2e4'')]\<rparr>,
          moves_uci = [''e2e4''], current_move_index = 1,
          is_player_turn = False, puzzle_solved = True\<rparr>,
       solution_moves = [''e2e4''],
       state_manager = Some
         \<lparr>states = [\<lparr>ps_puzzle_id = ''p1'', ps_moves_uci = [''e2e4''], ps_message_id = None\<rparr>],
          current_state = Some \<lparr>ps_puzzle_id = ''p1'', ps_moves_uci = [''e2e4''],
                                 ps_message_id = None\<rparr>\<rparr>,
       puzzle_id = Some ''p1''\<rparr>)"
  by (simp add: engine_eval)


lemma fools_mated_value:
  "fools_mated =
      \<lparr>game_state = Some
         \<lparr>board = \<lparr>position = (fools_fen, [''g2g4'', ''d8h4'']),
                    stack = [((fools_fen, [''g2g4'']), ''d8h4''), ((fools_fen, []), ''g2g4'')]\<rparr>,
          moves_uci = [''g2g4'', ''d8h4''], current_move_index = 1,
          is_player_turn = True, puzzle_solved = True\<rparr>,
       solution_moves = [''g2g4'', ''d8h4''],
       state_manager = Some
         \<lparr>states = [\<lparr>ps_puzzle_id = ''p1'', ps_moves_uci = [''g2g4''], ps_message_id = None\<rparr>,
                    \<lparr>ps_puzzle_id = ''p1'', ps_moves_uci = [''g2g4'', ''d8h4''],
                       ps_message_id = None\<rparr>],
          current_state = Some \<lparr>ps_puzzle_id = ''p1'', ps_moves_uci = [''g2g4'', ''d8h4''],
                                 ps_message_id = None\<rparr>\<rparr>,
       puzzle_id = Some ''p1''\<rparr>"
  by (simp add: fools_mated_def engine_eval)

lemma fools_reply:
  "play_move book_rules (snd (play_move book_rules (puzzle_on fools_fen [''g2g4'', ''d8h4'']) ''g2g4''))
     ''d8h4'' = ((PUZZLE_SOLVED, ''Puzzle solved with Qh4#!''), fools_mated)"
  by (simp add: fools_mated_value engine_eval)

lemma fools_mated_state: "game_state fools_mated = Some
         \<lparr>board = \<lparr>position = (fools_fen, [''g2g4'', ''d8h4'']),
                    stack = [((fools_fen, [''g2g4'']), ''d8h4''), ((fools_fen, []), ''g2g4'')]\<rparr>,
          moves_uci = [''g2g4'', ''d8h4''], current_move_index = 1,
          is_player_turn = True, puzzle_solved = True\<rparr>"
  by (simp add: fools_mated_value)

text \<open>
  C3 fails as stated. With the one-move solution e2e4 on the initial position, the
  player's e2e4 returns \<^verbatim>\<open>PUZZLE_SOLVED\<close>; the next \<^verbatim>\<open>play_move\<close>, e7e5, is applied all
  the same: the history grows to two moves and the store to two states.
\<close>

theorem play_after_solved_counterexample:
  "fst (fst (play_move book_rules (puzzle_on start_fen [''e2e4'']) ''e2e4'')) = PUZZLE_SOLVED
   \<and> snd (play_move book_rules
            (snd (play_move book_rules (puzzle_on start_fen [''e2e4'']) ''e2e4'')) ''e7e5'')
       \<noteq> snd (play_move book_rules (puzzle_on start_fen [''e2e4'']) ''e2e4'')
   \<and> map_option moves_uci (game_state (snd (play_move book_rules
            (snd (play_move book_rules (puzzle_on start_fen [''e2e4'']) ''e2e4'')) ''e7e5'')))
       = Some [''e2e4'', ''e7e5'']
   \<and> map_option (\<lambda>sm. length (states sm)) (state_manager (snd (play_move book_rules
            (snd (play_move book_rules (puzzle_on start_fen [''e2e4'']) ''e2e4'')) ''e7e5'')))
       = Some 2"
  by (simp add: solved_by_e4) (simp add: engine_eval)

text \<open>
  C3, amended. Once \<^verbatim>\<open>play_move\<close> has returned \<^verbatim>\<open>PUZZLE_SOLVED\<close>, the session is
  loaded with its solved flag set, and the flag is still set after any further
  \<^verbatim>\<open>play_move\<close>. A further call whose string resolves to no move returns
  \<^verbatim>\<open>INVALID_MOVE\<close> and leaves the engine, its store included, unchanged; so does every
  further call when the position is checkmate or stalemate, for a chess library that
  keeps its contract. When the cursor is at the end of the solution, a further call
  whose string resolves to a move is applied: it returns \<^verbatim>\<open>PUZZLE_SOLVED\<close> again and
  the history grows by that move.
\<close>

theorem solved_then_play_move:
  assumes "play_move R e s = ((PUZZLE_SOLVED, msg), e1)"
  shows "\<exists>g1. game_state e1 = Some g1 \<and> puzzle_solved g1
     \<and> (\<exists>g2. game_state (snd (play_move R e1 s')) = Some g2 \<and> puzzle_solved g2)
     \<and> (resolve_move R (position (board g1)) s' = None \<longrightarrow>
          fst (fst (play_move R e1 s')) = INVALID_MOVE \<and> snd (play_move R e1 s') = e1)
     \<and> (rules_sound R \<and> game_over_no_moves R
          \<and> (is_checkmate R (position (board g1)) \<or> is_stalemate R (position (board g1))) \<longrightarrow>
          fst (fst (play_move R e1 s')) = INVALID_MOVE \<and> snd (play_move R e1 s') = e1)
     \<and> (\<forall>m. resolve_move R (position (board g1)) s' = Some m
              \<and> length (solution_moves e1) \<le> current_move_index g1 \<longrightarrow>
          fst (fst (play_move R e1 s')) = PUZZLE_SOLVED
          \<and> map_option moves_uci (game_state (snd (play_move R e1 s')))
              = Some (moves_uci g1 @ [uci R m]))"
proof -
  from play_move_solved_state[OF assms] obtain g1 where
    g1: "game_state e1 = Some g1" and solved: "puzzle_solved g1" by blast
  have keep: "\<exists>g2. game_state (snd (play_move R e1 s')) = Some g2 \<and> puzzle_solved g2"
    using play_move_keeps_solved[OF g1 solved] .
  have unresolved: "fst (fst (play_move R e1 s')) = INVALID_MOVE \<and> snd (play_move R e1 s') = e1"
    if "resolve_move R (position (board g1)) s' = None"
    using that g1 by (simp add: play_move_def)
  have over: "resolve_move R (position (board g1)) s' = None"
    if "rules_sound R" "game_over_no_moves R"
      "is_checkmate R (position (board g1)) \<or> is_stalemate R (position (board g1))"
  proof (cases "resolve_move R (position (board g1)) s'")
    case None
    then show ?thesis .
  next
    case (Some m)
    have "is_legal R (position (board g1)) m"
      by (rule resolve_move_is_legal[OF that(1) Some])
    with that(2,3) show ?thesis by (auto simp: game_over_no_moves_def)
  qed
  have applied: "fst (fst (play_move R e1 s')) = PUZZLE_SOLVED
          \<and> map_option moves_uci (game_state (snd (play_move R e1 s')))
              = Some (moves_uci g1 @ [uci R m])"
    if "resolve_move R (position (board g1)) s' = Some m"
      "length (solution_moves e1) \<le> current_move_index g1" for m
    using that g1 by (simp add: play_move_def Let_def)
  show ?thesis
  proof (rule exI[of _ g1], intro conjI impI allI)
    show "game_state e1 = Some g1" by (rule g1)
    show "puzzle_solved g1" by (rule solved)
    show "\<exists>g2. game_state (snd (play_move R e1 s')) = Some g2 \<and> puzzle_solved g2"
      by (rule keep)
  next
    assume "resolve_move R (position (board g1)) s' = None"
    from unresolved[OF this]
    show "fst (fst (play_move R e1 s')) = INVALID_MOVE" "snd (play_move R e1 s') = e1"
      by simp_all
  next
    assume "rules_sound R \<and> game_over_no_moves R
          \<and> (is_checkmate R (position (board g1)) \<or> is_stalemate R (position (board g1)))"
    then have "resolve_move R (position (board g1)) s' = None"
      using over by blast
    from unresolved[OF this]
    show "fst (fst (play_move R e1 s')) = INVALID_MOVE" "snd (play_move R e1 s') = e1"
      by simp_all
  next
    fix m
    assume "resolve_move R (position (board g1)) s' = Some m
              \<and> length (solution_moves e1) \<le> current_move_index g1"
    then have "fst (fst (play_move R e1 s')) = PUZZLE_SOLVED
          \<and> map_option moves_uci (game_state (snd (play_move R e1 s')))
              = Some (moves_uci g1 @ [uci R m])"
      using applied by blast
    then show "fst (fst (play_move R e1 s')) = PUZZLE_SOLVED"
      "map_option moves_uci (game_state (snd (play_move R e1 s')))
              = Some (moves_uci g1 @ [uci R m])"
      by simp_all
  qed
qed

text \<open>
  Witness for C3: after the mate 2... Qh4 every further move is refused and the engine
  stays as it is; after the one-move solution e2e4, \<open>Ke2\<close> is refused and e7e5 is applied.
\<close>

theorem solved_then_play_move_witness:
  "play_move book_rules (snd (play_move book_rules (puzzle_on fools_fen [''g2g4'', ''d8h4'']) ''g2g4''))
     ''d8h4'' = ((PUZZLE_SOLVED, ''Puzzle solved with Qh4#!''), fools_mated)
   \<and> fst (fst (play_move book_rules fools_mated ''e2e4'')) = INVALID_MOVE
   \<and> snd (play_move book_rules fools_mated ''e2e4'') = fools_mated
   \<and> fst (fst (play_move book_rules
        (snd (play_move book_rules (puzzle_on start_fen [''e2e4'']) ''e2e4'')) ''Ke2'')) = INVALID_MOVE
   \<and> fst (fst (play_move book_rules
        (snd (play_move book_rules (puzzle_on start_fen [''e2e4'']) ''e2e4'')) ''e7e5'')) = PUZZLE_SOLVED
   \<and> map_option moves_uci (game_state (snd (play_move book_rules
        (snd (play_move book_rules (puzzle_on start_fen [''e2e4'']) ''e2e4'')) ''e7e5'')))
       = Some [''e2e4'', ''e7e5'']"
proof -
  define s0 where "s0 = puzzle_on start_fen [''e2e4'']"
  define s1 where "s1 = snd (play_move book_rules s0 ''e2e4'')"
  have solved: "play_move book_rules s0 ''e2e4'' = ((PUZZLE_SOLVED, ''Puzzle solved with e4!''), s1)"
    by (simp add: s0_def s1_def solved_by_e4)
  have s1: "game_state s1 = Some
         \<lparr>board = \<lparr>position = (start_fen, [''e2e4'']), stack = [((start_fen, []), ''e2e4'')]\<rparr>,
          moves_uci = [''e2e4''], current_move_index = 1,
          is_player_turn = False, puzzle_solved = True\<rparr>"
    and sol: "solution_moves s1 = [''e2e4'']"
    by (simp_all add: s0_def s1_def solved_by_e4)
  note mated = ex_SomeD[OF solved_then_play_move[OF fools_reply, of "''e2e4''"] fools_mated_state]
  note over = mated[THEN conjunct2, THEN conjunct2, THEN conjunct2, THEN conjunct1, THEN mp]
  have mate: "fst (fst (play_move book_rules fools_mated ''e2e4'')) = INVALID_MOVE
          \<and> snd (play_move book_rules fools_mated ''e2e4'') = fools_mated"
    by (rule over) (simp add: book_rules_sound book_game_over_no_moves)
  note after_bad = ex_SomeD[OF solved_then_play_move[OF solved, of "''Ke2''"] s1]
  note unres = after_bad[THEN conjunct2, THEN conjunct2, THEN conjunct1, THEN mp]
  have invalid: "fst (fst (play_move book_rules s1 ''Ke2'')) = INVALID_MOVE
          \<and> snd (play_move book_rules s1 ''Ke2'') = s1"
    by (rule unres) (simp add: engine_eval)
  note after_reply = ex_SomeD[OF solved_then_play_move[OF solved, of "''e7e5''"] s1]
  note app = after_reply[THEN conjunct2, THEN conjunct2, THEN conjunct2, THEN conjunct2,
      THEN spec[where x = "''e7e5''"], THEN mp]
  have "fst (fst (play_move book_rules s1 ''e7e5'')) = PUZZLE_SOLVED
          \<and> map_option moves_uci (game_state (snd (play_move book_rules s1 ''e7e5'')))
              = Some ([''e2e4''] @ [uci book_rules ''e7e5''])"
    by (rule app[simplified GameState.simps Board.simps]) (simp add: engine_eval sol)
  then have good: "fst (fst (play_move book_rules s1 ''e7e5'')) = PUZZLE_SOLVED
          \<and> map_option moves_uci (game_state (snd (play_move book_rules s1 ''e7e5'')))
              = Some [''e2e4'', ''e7e5'']"
    by simp
  from fools_reply mate invalid good show ?thesis
    unfolding s0_def s1_def by simp
qed

subsection \<open>A sequence of moves\<close>

lemma play_move_tree_loop_returns:
  "result \<noteq> None \<or> moves \<noteq> [] \<Longrightarrow>
   \<exists>r msgs. fst (play_move_tree_loop R e result results moves) = Inr (r, msgs)"
proof (induction moves arbitrary: e result results)
  case Nil
  then show ?case by auto
next
  case (Cons move_str moves)
  obtain r message e1 where pm: "play_move R e move_str = ((r, message), e1)"
    by (metis prod.exhaust)
  show ?case
  proof (cases "r = INVALID_MOVE \<or> r = PUZZLE_SOLVED")
    case True
    then show ?thesis using pm by auto
  next
    case stop: False
    show ?thesis
    proof (cases "r = SUCCESS")
      case False
      then show ?thesis using pm stop Cons.IH[of "Some r" e1 "results @ [message]"] by simp
    next
      case True
      then obtain g where g: "game_state e1 = Some g"
        using pm play_move_success_loaded by fastforce
      show ?thesis
      proof (cases "\<not> is_player_turn g \<and> current_move_index g < length (solution_moves e1)")
        case False
        then show ?thesis using pm stop True g Cons.IH[of "Some r" e1 "results @ [message]"] by auto
      next
        case auto_reply: True
        obtain r2 m2 e2 where pm2:
          "play_move R e1 (solution_moves e1 ! current_move_index g) = ((r2, m2), e2)"
          by (metis prod.exhaust)
        show ?thesis
          using pm stop True g auto_reply pm2
            Cons.IH[of "Some r" e2 "results @ [message] @ [''Opponent: '' @ m2]"]
          by (cases "r2 = PUZZLE_SOLVED") auto
      qed
    qed
  qed
qed

text \<open>
  C10. On an empty move list \<^verbatim>\<open>play_move_tree\<close> returns no pair: \<open>result\<close> was never
  assigned and the \<^verbatim>\<open>return\<close> raises, the session untouched. On every non-empty list
  it returns an outcome and a message list.
\<close>

theorem play_move_tree_empty_raises:
  "play_move_tree R e [] = (Inl UnboundLocalError, e)
   \<and> (\<exists>r msgs. fst (play_move_tree R e (move_str # moves)) = Inr (r, msgs))"
  unfolding play_move_tree_def
  using play_move_tree_loop_returns[of None "move_str # moves" R e "[]"] by simp

lemma scenario_c_run:
  "play_move_tree book_rules (puzzle_on queen_fen [''d1h5'', ''g6h5'']) [''d1h5''] =
     (Inr (SUCCESS, [''Qh5'', ''Opponent: gxh5'']),
      \<lparr>game_state = Some
         \<lparr>board = \<lparr>position = (queen_fen, [''d1h5'', ''g6h5'']),
                    stack = [((queen_fen, [''d1h5'']), ''g6h5''), ((queen_fen, []), ''d1h5'')]\<rparr>,
          moves_uci = [''d1h5'', ''g6h5''], current_move_index = 1,
          is_player_turn = True, puzzle_solved = False\<rparr>,
       solution_moves = [''d1h5'', ''g6h5''],
       state_manager = Some
         \<lparr>states = [\<lparr>ps_puzzle_id = ''p1'', ps_moves_uci = [''d1h5''], ps_message_id = None\<rparr>,
                    \<lparr>ps_puzzle_id = ''p1'', ps_moves_uci = [''d1h5'', ''g6h5''],
                       ps_message_id = None\<rparr>],
          current_state = Some \<lparr>ps_puzzle_id = ''p1'', ps_moves_uci = [''d1h5'', ''g6h5''],
                                 ps_message_id = None\<rparr>\<rparr>,
       puzzle_id = Some ''p1''\<rparr>)"
  by (simp add: play_move_tree_def engine_eval)

text \<open>
  C1. Scenario C on the position after 1. e4 g6, with the solution d1h5, g6h5:
  \<^verbatim>\<open>play_move_tree(["d1h5"])\<close> plays Qh5, auto-plays gxh5 and returns two messages, but
  the outcome is \<^verbatim>\<open>SUCCESS\<close>: the cursor was advanced for the player's ply only and
  stands at 1 after two plies, short of the two-ply solution, and the solved flag is
  not set.
\<close>

theorem scenario_c_not_solved:
  "fst (play_move_tree book_rules (puzzle_on queen_fen [''d1h5'', ''g6h5'']) [''d1h5''])
     = Inr (SUCCESS, [''Qh5'', ''Opponent: gxh5''])
   \<and> map_option current_move_index
        (game_state (snd (play_move_tree book_rules (puzzle_on queen_fen [''d1h5'', ''g6h5''])
           [''d1h5'']))) = Some 1
   \<and> map_option moves_uci
        (game_state (snd (play_move_tree book_rules (puzzle_on queen_fen [''d1h5'', ''g6h5''])
           [''d1h5'']))) = Some [''d1h5'', ''g6h5'']
   \<and> map_option puzzle_solved
        (game_state (snd (play_move_tree book_rules (puzzle_on queen_fen [''d1h5'', ''g6h5''])
           [''d1h5'']))) = Some False"
  by (simp add: scenario_c_run)
















subsection \<open>Turn alternation and rollback\<close>

lemma session_inv_initialize:
  "initialize_puzzle R e pid fen sol = Inr e0 \<Longrightarrow> session_inv e0"
  by (auto simp: initialize_puzzle_def session_inv_def Board_init_def split: option.splits)

lemma parity_Suc: "(Suc n mod 2 = 0) = (n mod 2 \<noteq> 0)"
  by presburger

lemma session_inv_play_move: "session_inv e \<Longrightarrow> session_inv (snd (play_move R e s))"
  by (auto simp: play_move_def session_inv_def Let_def pushed_def parity_Suc split: option.splits)

lemma session_inv_play_move': "session_inv e \<Longrightarrow> play_move R e s = (rm, e1) \<Longrightarrow> session_inv e1"
  using session_inv_play_move[of e R s] by simp

lemma session_inv_tree_loop:
  "session_inv e \<Longrightarrow> session_inv (snd (play_move_tree_loop R e result results moves))"
proof (induction moves arbitrary: e result results)
  case Nil
  then show ?case by (cases result) auto
next
  case (Cons move_str moves)
  obtain r message e1 where pm: "play_move R e move_str = ((r, message), e1)"
    by (metis prod.exhaust)
  have inv1: "session_inv e1" using Cons.prems pm session_inv_play_move' by blast
  then obtain g where g: "game_state e1 = Some g"
    by (auto simp: session_inv_def split: option.splits)
  obtain r2 m2 e2 where pm2:
    "play_move R e1 (solution_moves e1 ! current_move_index g) = ((r2, m2), e2)"
    by (metis prod.exhaust)
  have inv2: "session_inv e2" using inv1 pm2 session_inv_play_move' by blast
  show ?case
    using pm g pm2 inv1 inv2 Cons.IH[OF inv1] Cons.IH[OF inv2]
    by (simp add: Let_def)
qed

lemma pop_loop_inv:
  "length (stack (board g)) = length (moves_uci g) \<Longrightarrow>
   \<exists>g1 k. pop_loop count g moves_popped = (None, g1, k)
     \<and> length (stack (board g1)) = length (moves_uci g1)"
proof (induction count g moves_popped rule: pop_loop.induct)
  case (1 count g moves_popped)
  show ?case
  proof (cases "int moves_popped < count \<and> move_stack (board g) \<noteq> []")
    case False
    then show ?thesis using "1.prems" by (subst pop_loop.simps) auto
  next
    case True
    let ?g1 = "g\<lparr>board := pop (board g)\<rparr>"
    from True have ne: "stack (board g) \<noteq> []" by (simp add: move_stack_def)
    then have ne2: "moves_uci ?g1 \<noteq> []" using "1.prems" by auto
    have len: "length (stack (board (?g1\<lparr>moves_uci := butlast (moves_uci ?g1)\<rparr>)))
        = length (moves_uci (?g1\<lparr>moves_uci := butlast (moves_uci ?g1)\<rparr>))"
      using ne "1.prems" by (cases "stack (board g)") (auto simp: pop_def)
    from "1.IH"[OF True refl ne2 len] True ne2 show ?thesis
      by (subst pop_loop.simps) (simp add: Let_def)
  qed
qed

lemma session_inv_rollback:
  assumes "session_inv e"
  shows "session_inv (snd (rollback_moves e count)) \<and> (\<exists>ok. fst (rollback_moves e count) = Inr ok)"
proof -
  from assms obtain g where g: "game_state e = Some g"
    and len: "length (stack (board g)) = length (moves_uci g)"
    by (auto simp: session_inv_def split: option.splits)
  from pop_loop_inv[OF len, of count 0] obtain g1 k where
    pl: "pop_loop count g 0 = (None, g1, k)"
    and len1: "length (stack (board g1)) = length (moves_uci g1)" by blast
  show ?thesis
    using assms g pl len1 by (auto simp: rollback_moves_def session_inv_def)
qed

lemma session_inv_do_call: "session_inv e \<Longrightarrow> session_inv (do_call R e c)"
  by (cases c)
    (simp_all add: session_inv_play_move session_inv_tree_loop play_move_tree_def
      session_inv_rollback)

lemma session_inv_calls: "session_inv e \<Longrightarrow> session_inv (foldl (do_call R) e calls)"
  by (induction calls arbitrary: e) (simp_all add: session_inv_do_call)

text \<open>
  C9. From \<^verbatim>\<open>initialize_puzzle\<close>, after any sequence of \<^verbatim>\<open>play_move\<close>,
  \<^verbatim>\<open>play_move_tree\<close> and \<^verbatim>\<open>rollback_moves\<close> calls, accepted or not, the session is
  loaded and \<open>is_player_turn\<close> equals \<open>len(moves_uci) % 2 == 0\<close>; and a rollback
  from such a state never raises.
\<close>

theorem turn_alternation:
  assumes "initialize_puzzle R e pid fen sol = Inr e0"
  shows "\<exists>g. game_state (foldl (do_call R) e0 calls) = Some g
     \<and> is_player_turn g = (length (moves_uci g) mod 2 = 0)
     \<and> (\<exists>ok. fst (rollback_moves (foldl (do_call R) e0 calls) count) = Inr ok)"
proof -
  have inv: "session_inv (foldl (do_call R) e0 calls)"
    using assms session_inv_initialize session_inv_calls by blast
  then show ?thesis
    using session_inv_rollback[OF inv, of count]
    by (auto simp: session_inv_def split: option.splits)
qed

text \<open>Witness for C9: a move, its rollback, and the move again with its auto-played reply.\<close>

theorem turn_alternation_witness:
  "initialize_puzzle book_rules fresh_engine ''p1'' start_fen [''e2e4'', ''e7e5'']
     = Inr (puzzle_on start_fen [''e2e4'', ''e7e5''])
   \<and> (\<exists>g. game_state (foldl (do_call book_rules) (puzzle_on start_fen [''e2e4'', ''e7e5''])
              [Play ''e2e4'', Rollback 1, PlayTree [''e2e4'']]) = Some g
        \<and> is_player_turn g = (length (moves_uci g) mod 2 = 0)
        \<and> (\<exists>ok. fst (rollback_moves (foldl (do_call book_rules)
              (puzzle_on start_fen [''e2e4'', ''e7e5''])
              [Play ''e2e4'', Rollback 1, PlayTree [''e2e4'']]) 2) = Inr ok))"
proof -
  have init: "initialize_puzzle book_rules fresh_engine ''p1'' start_fen [''e2e4'', ''e7e5'']
     = Inr (puzzle_on start_fen [''e2e4'', ''e7e5''])"
    by (simp add: puzzle_on_def initialize_puzzle_def book_from_fen_def)
  from turn_alternation[OF init] init show ?thesis by blast
qed

lemma three_plies_value:
  "three_plies =
     \<lparr>game_state = Some
        \<lparr>board = \<lparr>position = (start_fen, [''e2e4'', ''e7e5'', ''g1f3'']),
                   stack = [((start_fen, [''e2e4'', ''e7e5'']), ''g1f3''),
                            ((start_fen, [''e2e4'']), ''e7e5''),
                            ((start_fen, []), ''e2e4'')]\<rparr>,
         moves_uci = [''e2e4'', ''e7e5'', ''g1f3''], current_move_index = 2,
         is_player_turn = False, puzzle_solved = False\<rparr>,
      solution_moves = [''e2e4'', ''g1f3'', ''b1c3''],
      state_manager = Some
        \<lparr>states = [\<lparr>ps_puzzle_id = ''p1'', ps_moves_uci = [''e2e4''], ps_message_id = None\<rparr>,
                   \<lparr>ps_puzzle_id = ''p1'', ps_moves_uci = [''e2e4'', ''e7e5''],
                      ps_message_id = None\<rparr>,
                   \<lparr>ps_puzzle_id = ''p1'', ps_moves_uci = [''e2e4'', ''e7e5'', ''g1f3''],
                      ps_message_id = None\<rparr>],
         current_state = Some \<lparr>ps_puzzle_id = ''p1'',
                                ps_moves_uci = [''e2e4'', ''e7e5'', ''g1f3''],
                                ps_message_id = None\<rparr>\<rparr>,
      puzzle_id = Some ''p1''\<rparr>"
  by (simp add: three_plies_def engine_eval)

lemma three_plies_rolled_back:
  "rollback_moves three_plies 2 =
     (Inr True,
      \<lparr>game_state = Some
        \<lparr>board = \<lparr>position = (start_fen, [''e2e4'']), stack = [((start_fen, []), ''e2e4'')]\<rparr>,
         moves_uci = [''e2e4''], current_move_index = 0,
         is_player_turn = False, puzzle_solved = False\<rparr>,
      solution_moves = [''e2e4'', ''g1f3'', ''b1c3''],
      state_manager = Some
        \<lparr>states = [\<lparr>ps_puzzle_id = ''p1'', ps_moves_uci = [''e2e4''], ps_message_id = None\<rparr>,
                   \<lparr>ps_puzzle_id = ''p1'', ps_moves_uci = [''e2e4'', ''e7e5''],
                      ps_message_id = None\<rparr>,
                   \<lparr>ps_puzzle_id = ''p1'', ps_moves_uci = [''e2e4'', ''e7e5'', ''g1f3''],
                      ps_message_id = None\<rparr>],
         current_state = Some \<lparr>ps_puzzle_id = ''p1'',
                                ps_moves_uci = [''e2e4'', ''e7e5'', ''g1f3''],
                                ps_message_id = None\<rparr>\<rparr>,
      puzzle_id = Some ''p1''\<rparr>)"
  by (simp add: three_plies_value rollback_moves_def pop_loop.simps pop_def move_stack_def)

text \<open>
  C5. The session \<open>three_plies\<close> has the history e2e4, e7e5, g1f3 and the opponent to
  move. \<^verbatim>\<open>rollback_moves(2)\<close> removes two plies and sets the cursor to \<open>max(0, 2 - 2)\<close>,
  that is 0, although one player's ply is still in the history. Playing the removed
  moves again: e7e5 is accepted, g1f3 is compared with \<open>solution[0]\<close>, e2e4, and refused
  as \<^verbatim>\<open>WRONG_MOVE\<close>. The history ends as e2e4, e7e5 with the player to move: neither
  the history nor the turn is restored.
\<close>

theorem rollback_replay_diverges:
  "map_option moves_uci (game_state three_plies) = Some [''e2e4'', ''e7e5'', ''g1f3'']
   \<and> map_option is_player_turn (game_state three_plies) = Some False
   \<and> fst (rollback_moves three_plies 2) = Inr True
   \<and> map_option moves_uci (game_state (snd (rollback_moves three_plies 2))) = Some [''e2e4'']
   \<and> map_option current_move_index (game_state (snd (rollback_moves three_plies 2))) = Some 0
   \<and> fst (play_move book_rules (snd (rollback_moves three_plies 2)) ''e7e5'') = (SUCCESS, ''e5'')
   \<and> fst (play_move book_rules
            (snd (play_move book_rules (snd (rollback_moves three_plies 2)) ''e7e5'')) ''g1f3'')
       = (WRONG_MOVE, ''Puzzle expects a different move'')
   \<and> map_option moves_uci (game_state (foldl (do_call book_rules) three_plies
          [Rollback 2, Play ''e7e5'', Play ''g1f3''])) = Some [''e2e4'', ''e7e5'']
   \<and> map_option is_player_turn (game_state (foldl (do_call book_rules) three_plies
          [Rollback 2, Play ''e7e5'', Play ''g1f3''])) = Some True"
  by (simp add: three_plies_rolled_back) (simp add: three_plies_value engine_eval)

subsection \<open>Resuming from a stored state\<close>

lemma replay_loop_append:
  "replay_loop R b (pre @ rest) =
     (case replay_loop R b pre of Inl err \<Rightarrow> Inl err | Inr b' \<Rightarrow> replay_loop R b' rest)"
  by (induction pre arbitrary: b) (auto split: option.splits sum.splits)

lemma replay_loop_board:
  "replay_loop R b ms = Inr b' \<Longrightarrow>
   b' = foldl (pushed R) b (map (\<lambda>u. the (from_uci R u)) ms)"
  by (induction ms arbitrary: b) (auto simp: push_def split: option.splits sum.splits if_splits)

lemma replay_loop_first_failure:
  "replay_loop R b ms = Inl err \<Longrightarrow>
   \<exists>pre u post b'. ms = pre @ u # post \<and> replay_loop R b pre = Inr b'
     \<and> (err = InvalidMoveError \<and> from_uci R u = None
        \<or> err = AssertionError \<and> (\<exists>m. from_uci R u = Some m \<and> \<not> push_ok R (position b') m))"
proof (induction ms arbitrary: b)
  case Nil
  then show ?case by simp
next
  case (Cons u ms)
  show ?case
  proof (cases "from_uci R u")
    case None
    with Cons.prems have "err = InvalidMoveError" by simp
    with None show ?thesis by (intro exI[of _ "[]"] exI[of _ u] exI[of _ ms] exI[of _ b]) simp
  next
    case (Some m)
    show ?thesis
    proof (cases "push_ok R (position b) m")
      case False
      with Some Cons.prems have "err = AssertionError" by (simp add: push_def)
      with Some False show ?thesis
        by (intro exI[of _ "[]"] exI[of _ u] exI[of _ ms] exI[of _ b]) simp
    next
      case True
      with Some Cons.prems have "replay_loop R (pushed R b m) ms = Inl err"
        by (simp add: push_def)
      from Cons.IH[OF this] obtain pre v post b' where
        ms: "ms = pre @ v # post" and pre: "replay_loop R (pushed R b m) pre = Inr b'"
        and why: "err = InvalidMoveError \<and> from_uci R v = None
          \<or> err = AssertionError \<and> (\<exists>m. from_uci R v = Some m \<and> \<not> push_ok R (position b') m)"
        by blast
      have "replay_loop R b (u # pre) = Inr b'"
        using Some True pre by (simp add: push_def)
      with ms why show ?thesis
        by (intro exI[of _ "u # pre"] exI[of _ v] exI[of _ post] exI[of _ b']) simp
    qed
  qed
qed

lemma replay_loop_fails_at:
  assumes "replay_loop R b pre = Inr b'"
  shows "from_uci R u = None \<Longrightarrow> replay_loop R b (pre @ u # post) = Inl InvalidMoveError"
    and "from_uci R u = Some m \<Longrightarrow> \<not> push_ok R (position b') m \<Longrightarrow>
         replay_loop R b (pre @ u # post) = Inl AssertionError"
  using assms by (simp_all add: replay_loop_append push_def)

lemma replay_loop_succeeds_iff:
  "(\<exists>b'. replay_loop R b ms = Inr b') \<longleftrightarrow>
   (\<forall>pre u post. ms = pre @ u # post \<longrightarrow>
      (\<exists>m. from_uci R u = Some m
         \<and> push_ok R (position (foldl (pushed R) b (map (\<lambda>u. the (from_uci R u)) pre))) m))"
proof
  assume "\<exists>b'. replay_loop R b ms = Inr b'"
  then obtain b' where ok: "replay_loop R b ms = Inr b'" ..
  show "\<forall>pre u post. ms = pre @ u # post \<longrightarrow>
      (\<exists>m. from_uci R u = Some m
         \<and> push_ok R (position (foldl (pushed R) b (map (\<lambda>u. the (from_uci R u)) pre))) m)"
  proof (intro allI impI)
    fix pre u post
    assume ms: "ms = pre @ u # post"
    with ok replay_loop_append[of R b pre "u # post"]
    obtain b1 where b1: "replay_loop R b pre = Inr b1"
      and rest: "replay_loop R b1 (u # post) = Inr b'"
      by (auto split: sum.splits)
    from rest obtain m where "from_uci R u = Some m" "push_ok R (position b1) m"
      by (auto simp: push_def split: option.splits if_splits)
    with replay_loop_board[OF b1]
    show "\<exists>m. from_uci R u = Some m
         \<and> push_ok R (position (foldl (pushed R) b (map (\<lambda>u. the (from_uci R u)) pre))) m"
      by simp
  qed
next
  assume all: "\<forall>pre u post. ms = pre @ u # post \<longrightarrow>
      (\<exists>m. from_uci R u = Some m
         \<and> push_ok R (position (foldl (pushed R) b (map (\<lambda>u. the (from_uci R u)) pre))) m)"
  show "\<exists>b'. replay_loop R b ms = Inr b'"
  proof (cases "replay_loop R b ms")
    case (Inr b')
    then show ?thesis by blast
  next
    case (Inl err)
    from replay_loop_first_failure[OF this] obtain pre u post b' where
      ms: "ms = pre @ u # post" and pre: "replay_loop R b pre = Inr b'"
      and why: "err = InvalidMoveError \<and> from_uci R u = None
        \<or> err = AssertionError \<and> (\<exists>m. from_uci R u = Some m \<and> \<not> push_ok R (position b') m)"
      by blast
    from all ms obtain m where "from_uci R u = Some m"
      "push_ok R (position (foldl (pushed R) b (map (\<lambda>u. the (from_uci R u)) pre))) m"
      by blast
    with why replay_loop_board[OF pre] show ?thesis by auto
  qed
qed

lemma replay_loop_ignores_legality:
  "replay_loop (R\<lparr>is_legal := legal'\<rparr>) b ms = replay_loop R b ms"
  by (induction ms arbitrary: b) (auto simp: push_def pushed_def split: option.splits)

lemma book_push_ok_simps [simp]:
  "book_push_ok (start_fen, []) ''e2e4''"
  "book_push_ok (start_fen, [''e2e4'']) ''e7e5''"
  "book_push_ok (start_fen, []) ''e2e5''"
  "\<not> book_push_ok (start_fen, []) ''e3e4''"
  by (simp_all add: book_push_ok_def start_fen_def square_of_def)

text \<open>
  C4 fails as stated. The stored history e2e5 is not legal from the initial position,
  yet \<^verbatim>\<open>load_from_state\<close> replays it without an error: the move is parsed and pushed,
  never tested for legality, and a pawn stands on e2.
\<close>

theorem load_illegal_history_counterexample:
  "from_uci book_rules ''e2e5'' = Some ''e2e5''
   \<and> \<not> is_legal book_rules (start_fen, []) ''e2e5''
   \<and> load_from_state book_rules fresh_engine
        \<lparr>ps_puzzle_id = ''p1'', ps_moves_uci = [''e2e5''], ps_message_id = None\<rparr>
        start_fen [''e2e4'', ''e7e5'']
     = Inr \<lparr>game_state = Some
              \<lparr>board = \<lparr>position = (start_fen, [''e2e5'']),
                         stack = [((start_fen, []), ''e2e5'')]\<rparr>,
               moves_uci = [''e2e5''], current_move_index = 1,
               is_player_turn = False, puzzle_solved = False\<rparr>,
            solution_moves = [''e2e4'', ''e7e5''],
            state_manager = Some StateManager_init, puzzle_id = Some ''p1''\<rparr>"
  by (simp add: load_from_state_def replay_moves_on_board_def book_from_fen_def
      book_from_uci_def is_square_def book_is_legal_def push_def pushed_def Board_init_def
      fresh_engine_def ChessLogic_init_def)

text \<open>
  C4, amended. \<^verbatim>\<open>load_from_state\<close> fails with \<^verbatim>\<open>ValueError\<close> exactly when the start
  position is malformed; with \<^verbatim>\<open>InvalidMoveError\<close> exactly when, the stored moves before
  it replayed, a stored move is not well-formed UCI; with \<^verbatim>\<open>AssertionError\<close> exactly
  when, the stored moves before it replayed, a stored move is well-formed and
  \<^verbatim>\<open>push\<close> refuses it on the board reached. On a well-formed start position it succeeds
  exactly when every stored move is well-formed and accepted by \<^verbatim>\<open>push\<close> on the board
  the moves before it leave. When it succeeds, the board is the fresh board with every
  stored move pushed in order, the history is the stored one, the cursor its length,
  \<open>is_player_turn\<close> says whether that length is even, and the solved flag is false.
  Legality plays no part: the result is the same whatever \<^verbatim>\<open>legal_moves\<close> holds.
\<close>

theorem load_from_state_replays:
  "(load_from_state R e ps fen sol = Inl ValueError \<longleftrightarrow> from_fen R fen = None)
   \<and> (load_from_state R e ps fen sol = Inl InvalidMoveError \<longleftrightarrow>
        (\<exists>p pre u post b. from_fen R fen = Some p \<and> ps_moves_uci ps = pre @ u # post
           \<and> replay_loop R (Board_init p) pre = Inr b \<and> from_uci R u = None))
   \<and> (load_from_state R e ps fen sol = Inl AssertionError \<longleftrightarrow>
        (\<exists>p pre u post b m. from_fen R fen = Some p \<and> ps_moves_uci ps = pre @ u # post
           \<and> replay_loop R (Board_init p) pre = Inr b \<and> from_uci R u = Some m
           \<and> \<not> push_ok R (position b) m))
   \<and> (\<forall>p. from_fen R fen = Some p \<longrightarrow>
        ((\<exists>e'. load_from_state R e ps fen sol = Inr e') \<longleftrightarrow>
         (\<forall>pre u post. ps_moves_uci ps = pre @ u # post \<longrightarrow>
            (\<exists>m. from_uci R u = Some m
               \<and> push_ok R (position (foldl (pushed R) (Board_init p)
                                        (map (\<lambda>u. the (from_uci R u)) pre))) m))))
   \<and> (\<forall>p e'. from_fen R fen = Some p \<and> load_from_state R e ps fen sol = Inr e' \<longrightarrow>
        e' = e\<lparr>puzzle_id := Some (ps_puzzle_id ps), solution_moves := sol,
               game_state := Some
                 \<lparr>board = foldl (pushed R) (Board_init p)
                            (map (\<lambda>u. the (from_uci R u)) (ps_moves_uci ps)),
                  moves_uci = ps_moves_uci ps,
                  current_move_index = length (ps_moves_uci ps),
                  is_player_turn = (length (ps_moves_uci ps) mod 2 = 0),
                  puzzle_solved = False\<rparr>\<rparr>)
   \<and> load_from_state (R\<lparr>is_legal := legal'\<rparr>) e ps fen sol = load_from_state R e ps fen sol"
proof (intro conjI allI impI)
  show "load_from_state R e ps fen sol = Inl ValueError \<longleftrightarrow> from_fen R fen = None"
  proof
    assume "load_from_state R e ps fen sol = Inl ValueError"
    then show "from_fen R fen = None"
      by (auto simp: load_from_state_def replay_moves_on_board_def
          split: option.splits sum.splits dest!: replay_loop_first_failure)
  next
    assume "from_fen R fen = None"
    then show "load_from_state R e ps fen sol = Inl ValueError"
      by (simp add: load_from_state_def replay_moves_on_board_def)
  qed
next
  show "load_from_state R e ps fen sol = Inl InvalidMoveError \<longleftrightarrow>
        (\<exists>p pre u post b. from_fen R fen = Some p \<and> ps_moves_uci ps = pre @ u # post
           \<and> replay_loop R (Board_init p) pre = Inr b \<and> from_uci R u = None)"
  proof
    assume "load_from_state R e ps fen sol = Inl InvalidMoveError"
    then obtain p where p: "from_fen R fen = Some p"
      and "replay_loop R (Board_init p) (ps_moves_uci ps) = Inl InvalidMoveError"
      by (auto simp: load_from_state_def replay_moves_on_board_def
          split: option.splits sum.splits)
    from replay_loop_first_failure[OF this(2)] p
    show "\<exists>p pre u post b. from_fen R fen = Some p \<and> ps_moves_uci ps = pre @ u # post
           \<and> replay_loop R (Board_init p) pre = Inr b \<and> from_uci R u = None"
      by blast
  next
    assume "\<exists>p pre u post b. from_fen R fen = Some p \<and> ps_moves_uci ps = pre @ u # post
           \<and> replay_loop R (Board_init p) pre = Inr b \<and> from_uci R u = None"
    then obtain p pre u post b where p: "from_fen R fen = Some p"
      and ms: "ps_moves_uci ps = pre @ u # post"
      and pre: "replay_loop R (Board_init p) pre = Inr b" and u: "from_uci R u = None"
      by blast
    from replay_loop_fails_at(1)[OF pre u, of post] p ms
    show "load_from_state R e ps fen sol = Inl InvalidMoveError"
      by (simp add: load_from_state_def replay_moves_on_board_def)
  qed
next
  show "load_from_state R e ps fen sol = Inl AssertionError \<longleftrightarrow>
        (\<exists>p pre u post b m. from_fen R fen = Some p \<and> ps_moves_uci ps = pre @ u # post
           \<and> replay_loop R (Board_init p) pre = Inr b \<and> from_uci R u = Some m
           \<and> \<not> push_ok R (position b) m)"
  proof
    assume "load_from_state R e ps fen sol = Inl AssertionError"
    then obtain p where p: "from_fen R fen = Some p"
      and "replay_loop R (Board_init p) (ps_moves_uci ps) = Inl AssertionError"
      by (auto simp: load_from_state_def replay_moves_on_board_def
          split: option.splits sum.splits)
    from replay_loop_first_failure[OF this(2)] p
    show "\<exists>p pre u post b m. from_fen R fen = Some p \<and> ps_moves_uci ps = pre @ u # post
           \<and> replay_loop R (Board_init p) pre = Inr b \<and> from_uci R u = Some m
           \<and> \<not> push_ok R (position b) m"
      by blast
  next
    assume "\<exists>p pre u post b m. from_fen R fen = Some p \<and> ps_moves_uci ps = pre @ u # post
           \<and> replay_loop R (Board_init p) pre = Inr b \<and> from_uci R u = Some m
           \<and> \<not> push_ok R (position b) m"
    then obtain p pre u post b m where p: "from_fen R fen = Some p"
      and ms: "ps_moves_uci ps = pre @ u # post"
      and pre: "replay_loop R (Board_init p) pre = Inr b" and u: "from_uci R u = Some m"
      and no: "\<not> push_ok R (position b) m"
      by blast
    from replay_loop_fails_at(2)[OF pre u no, of post] p ms
    show "load_from_state R e ps fen sol = Inl AssertionError"
      by (simp add: load_from_state_def replay_moves_on_board_def)
  qed
next
  fix p
  assume p: "from_fen R fen = Some p"
  have "(\<exists>e'. load_from_state R e ps fen sol = Inr e')
      \<longleftrightarrow> (\<exists>b'. replay_loop R (Board_init p) (ps_moves_uci ps) = Inr b')"
    using p by (auto simp: load_from_state_def replay_moves_on_board_def split: sum.splits)
  then show "(\<exists>e'. load_from_state R e ps fen sol = Inr e') \<longleftrightarrow>
         (\<forall>pre u post. ps_moves_uci ps = pre @ u # post \<longrightarrow>
            (\<exists>m. from_uci R u = Some m
               \<and> push_ok R (position (foldl (pushed R) (Board_init p)
                                        (map (\<lambda>u. the (from_uci R u)) pre))) m))"
    using replay_loop_succeeds_iff[of R "Board_init p" "ps_moves_uci ps"] by simp
next
  fix p e'
  assume a: "from_fen R fen = Some p \<and> load_from_state R e ps fen sol = Inr e'"
  then obtain b where b: "replay_loop R (Board_init p) (ps_moves_uci ps) = Inr b"
    by (auto simp: load_from_state_def replay_moves_on_board_def split: sum.splits)
  from a b replay_loop_board[OF b]
  show "e' = e\<lparr>puzzle_id := Some (ps_puzzle_id ps), solution_moves := sol,
               game_state := Some
                 \<lparr>board = foldl (pushed R) (Board_init p)
                            (map (\<lambda>u. the (from_uci R u)) (ps_moves_uci ps)),
                  moves_uci = ps_moves_uci ps,
                  current_move_index = length (ps_moves_uci ps),
                  is_player_turn = (length (ps_moves_uci ps) mod 2 = 0),
                  puzzle_solved = False\<rparr>\<rparr>"
    by (auto simp: load_from_state_def replay_moves_on_board_def)
next
  show "load_from_state (R\<lparr>is_legal := legal'\<rparr>) e ps fen sol = load_from_state R e ps fen sol"
    by (simp add: load_from_state_def replay_moves_on_board_def replay_loop_ignores_legality
        split: option.splits)
qed

text \<open>
  Witness for C4: the history e2e4, e7e5 is replayed; the history e2e4, \<open>e7\<close> fails on
  its second move; the history e3e4 fails in \<^verbatim>\<open>push\<close>, no piece standing on e3; the
  start position \<open>8/8\<close> is malformed.
\<close>

theorem load_from_state_replays_witness:
  "load_from_state book_rules fresh_engine
        \<lparr>ps_puzzle_id = ''p1'', ps_moves_uci = [''e2e4'', ''e7e5''], ps_message_id = None\<rparr>
        start_fen [''e2e4'', ''e7e5'', ''g1f3'']
     = Inr \<lparr>game_state = Some
              \<lparr>board = \<lparr>position = (start_fen, [''e2e4'', ''e7e5'']),
                         stack = [((start_fen, [''e2e4'']), ''e7e5''), ((start_fen, []), ''e2e4'')]\<rparr>,
               moves_uci = [''e2e4'', ''e7e5''], current_move_index = 2,
               is_player_turn = True, puzzle_solved = False\<rparr>,
            solution_moves = [''e2e4'', ''e7e5'', ''g1f3''],
            state_manager = Some StateManager_init, puzzle_id = Some ''p1''\<rparr>
   \<and> load_from_state book_rules fresh_engine
        \<lparr>ps_puzzle_id = ''p1'', ps_moves_uci = [''e2e4'', ''e7''], ps_message_id = None\<rparr>
        start_fen [''e2e4'', ''e7e5'', ''g1f3''] = Inl InvalidMoveError
   \<and> load_from_state book_rules fresh_engine
        \<lparr>ps_puzzle_id = ''p1'', ps_moves_uci = [''e3e4''], ps_message_id = None\<rparr>
        start_fen [''e2e4'', ''e7e5'', ''g1f3''] = Inl AssertionError
   \<and> load_from_state book_rules fresh_engine
        \<lparr>ps_puzzle_id = ''p1'', ps_moves_uci = [''e2e4''], ps_message_id = None\<rparr>
        ''8/8'' [''e2e4'', ''e7e5'', ''g1f3''] = Inl ValueError"
proof -
  let ?ok = "\<lparr>ps_puzzle_id = ''p1'', ps_moves_uci = [''e2e4'', ''e7e5''], ps_message_id = None\<rparr>"
  let ?bad = "\<lparr>ps_puzzle_id = ''p1'', ps_moves_uci = [''e2e4'', ''e7''], ps_message_id = None\<rparr>"
  let ?empty = "\<lparr>ps_puzzle_id = ''p1'', ps_moves_uci = [''e3e4''], ps_message_id = None\<rparr>"
  let ?one = "\<lparr>ps_puzzle_id = ''p1'', ps_moves_uci = [''e2e4''], ps_message_id = None\<rparr>"
  let ?sol = "[''e2e4'', ''e7e5'', ''g1f3'']"
  let ?p = "(start_fen, []) :: book_position"
  let ?b0 = "Board_init ?p :: (book_position, string) Board"
  have fen: "from_fen book_rules start_fen = Some ?p"
    by (simp add: book_from_fen_def)
  have nofen: "from_fen book_rules ''8/8'' = None"
    by (simp add: book_from_fen_def start_fen_def queen_fen_def fools_fen_def)
  have 3: "load_from_state book_rules fresh_engine ?one ''8/8'' ?sol = Inl ValueError"
    using load_from_state_replays[of book_rules fresh_engine ?one "''8/8''" ?sol,
        THEN conjunct1, THEN iffD2] nofen .
  have "\<exists>p pre u post b. from_fen book_rules start_fen = Some p
      \<and> ps_moves_uci ?bad = pre @ u # post
      \<and> replay_loop book_rules (Board_init p) pre = Inr b \<and> from_uci book_rules u = None"
    by (rule exI[of _ ?p], rule exI[of _ "[''e2e4'']"], rule exI[of _ "''e7''"],
        rule exI[of _ "[]"], rule exI[of _ "pushed book_rules ?b0 ''e2e4''"])
      (simp add: book_from_fen_def book_from_uci_def is_square_def push_def Board_init_def)
  then have 2: "load_from_state book_rules fresh_engine ?bad start_fen ?sol = Inl InvalidMoveError"
    by (rule load_from_state_replays[of book_rules fresh_engine ?bad start_fen ?sol,
        THEN conjunct2, THEN conjunct1, THEN iffD2])
  have "\<exists>p pre u post b m. from_fen book_rules start_fen = Some p
      \<and> ps_moves_uci ?empty = pre @ u # post
      \<and> replay_loop book_rules (Board_init p) pre = Inr b \<and> from_uci book_rules u = Some m
      \<and> \<not> push_ok book_rules (position b) m"
    by (rule exI[of _ ?p], rule exI[of _ "[]"], rule exI[of _ "''e3e4''"],
        rule exI[of _ "[]"], rule exI[of _ ?b0], rule exI[of _ "''e3e4''"])
      (simp add: book_from_fen_def book_from_uci_def is_square_def Board_init_def)
  then have 4: "load_from_state book_rules fresh_engine ?empty start_fen ?sol = Inl AssertionError"
    by (rule load_from_state_replays[of book_rules fresh_engine ?empty start_fen ?sol,
        THEN conjunct2, THEN conjunct2, THEN conjunct1, THEN iffD2])
  note T = load_from_state_replays[of book_rules fresh_engine ?ok start_fen ?sol]
  have "\<forall>pre u post. ps_moves_uci ?ok = pre @ u # post \<longrightarrow>
            (\<exists>m. from_uci book_rules u = Some m
               \<and> push_ok book_rules (position (foldl (pushed book_rules) ?b0
                                        (map (\<lambda>u. the (from_uci book_rules u)) pre))) m)"
    by (auto simp: Cons_eq_append_conv book_from_uci_def is_square_def pushed_def Board_init_def)
  with T[THEN conjunct2, THEN conjunct2, THEN conjunct2, THEN conjunct1, THEN spec, THEN mp,
      OF fen]
  obtain e' where e': "load_from_state book_rules fresh_engine ?ok start_fen ?sol = Inr e'"
    by blast
  from T[THEN conjunct2, THEN conjunct2, THEN conjunct2, THEN conjunct2, THEN conjunct1,
      THEN spec, THEN spec, THEN mp, OF conjI, OF fen e']
  have "e' = \<lparr>game_state = Some
              \<lparr>board = \<lparr>position = (start_fen, [''e2e4'', ''e7e5'']),
                         stack = [((start_fen, [''e2e4'']), ''e7e5''), ((start_fen, []), ''e2e4'')]\<rparr>,
               moves_uci = [''e2e4'', ''e7e5''], current_move_index = 2,
               is_player_turn = True, puzzle_solved = False\<rparr>,
            solution_moves = ?sol,
            state_manager = Some StateManager_init, puzzle_id = Some ''p1''\<rparr>"
    by (simp add: book_from_uci_def is_square_def pushed_def Board_init_def
      fresh_engine_def ChessLogic_init_def)
  with e' have 1: "load_from_state book_rules fresh_engine ?ok start_fen ?sol
     = Inr \<lparr>game_state = Some
              \<lparr>board = \<lparr>position = (start_fen, [''e2e4'', ''e7e5'']),
                         stack = [((start_fen, [''e2e4'']), ''e7e5''), ((start_fen, []), ''e2e4'')]\<rparr>,
               moves_uci = [''e2e4'', ''e7e5''], current_move_index = 2,
               is_player_turn = True, puzzle_solved = False\<rparr>,
            solution_moves = ?sol,
            state_manager = Some StateManager_init, puzzle_id = Some ''p1''\<rparr>"
    by simp
  from 1 2 4 3 show ?thesis by blast
qed

end
